theory Spec2Isabelle
  imports Complex_Main "HOL-Library.Multiset" "HOL-Library.Char_ord" "HOL-Library.List_Lexorder"
begin

chapter \<open>The program\<close>

section \<open>Product records (Product.h, PhysicalProduct.h, DigitalProduct.h)\<close>

text \<open>
  The class \<open>Product\<close> is a record; the derived classes \<open>PhysicalProduct\<close> and
  \<open>DigitalProduct\<close> extend it, so a method of the base class is a function on every
  \<open>'a product_scheme\<close>.  A C++ \<open>double\<close> is idealised as a real number (no rounding,
  no NaN, no infinity), a C++ \<open>int\<close> is an integer in the 32-bit range.
\<close>

record product =
  sku :: string
  name :: string
  price :: real
  quantity :: int
  category :: string

record physical_product = product +
  weight :: real
  supplier :: string

record digital_product = product +
  downloadLink :: string
  fileSizeMB :: real
  licenseType :: string

text \<open>What a \<open>Product*\<close> points to: an object of one of the two concrete classes.\<close>

datatype obj = PhysicalObj physical_product | DigitalObj digital_product

subsection \<open>Product.cpp\<close>

text \<open>\<open>Product::Product()\<close>, the derived part of the object given as \<open>m\<close>.\<close>

definition Product_default :: "'a \<Rightarrow> 'a product_scheme" where
  "Product_default m =
     \<lparr>sku = '''', name = '''', price = 0, quantity = 0, category = ''General'', \<dots> = m\<rparr>"

text \<open>\<open>Product::Product(sku, name, price, quantity, category)\<close>.\<close>

definition Product_new ::
  "string \<Rightarrow> string \<Rightarrow> real \<Rightarrow> int \<Rightarrow> string \<Rightarrow> 'a \<Rightarrow> 'a product_scheme" where
  "Product_new sk nm pr qty cat m =
     \<lparr>sku = sk, name = nm,
      price = (if pr \<ge> 0 then pr else 0),
      quantity = (if qty \<ge> 0 then qty else 0),
      category = cat, \<dots> = m\<rparr>"

definition setSku :: "string \<Rightarrow> 'a product_scheme \<Rightarrow> 'a product_scheme" where
  "setSku sk p = p\<lparr>sku := sk\<rparr>"

definition setName :: "string \<Rightarrow> 'a product_scheme \<Rightarrow> 'a product_scheme" where
  "setName nm p = p\<lparr>name := nm\<rparr>"

text \<open>The setters that validate return the \<open>bool\<close> of the source beside the object.\<close>

definition setPrice :: "real \<Rightarrow> 'a product_scheme \<Rightarrow> bool \<times> 'a product_scheme" where
  "setPrice pr p = (if pr < 0 then (False, p) else (True, p\<lparr>price := pr\<rparr>))"

definition setQuantity :: "int \<Rightarrow> 'a product_scheme \<Rightarrow> bool \<times> 'a product_scheme" where
  "setQuantity qty p = (if qty < 0 then (False, p) else (True, p\<lparr>quantity := qty\<rparr>))"

definition setCategory :: "string \<Rightarrow> 'a product_scheme \<Rightarrow> 'a product_scheme" where
  "setCategory cat p = p\<lparr>category := cat\<rparr>"

definition Product_calculateValue :: "'a product_scheme \<Rightarrow> real" where
  "Product_calculateValue p = price p * of_int (quantity p)"

definition Product_applyDiscount :: "real \<Rightarrow> 'a product_scheme \<Rightarrow> real" where
  "Product_applyDiscount percentage p =
     (if percentage < 0 \<or> percentage > 100 then price p
      else price p * (1 - percentage / 100))"

subsection \<open>PhysicalProduct.cpp\<close>

definition PhysicalProduct_default :: physical_product where
  "PhysicalProduct_default =
     setCategory ''Physical''
       (Product_default (physical_product.fields 0 ''Unknown''))"

definition PhysicalProduct_new ::
  "string \<Rightarrow> string \<Rightarrow> real \<Rightarrow> int \<Rightarrow> string \<Rightarrow> real \<Rightarrow> string \<Rightarrow> physical_product" where
  "PhysicalProduct_new sk nm pr qty cat w sp =
     Product_new sk nm pr qty cat
       (physical_product.fields (if w \<ge> 0 then w else 0) sp)"

definition setWeight :: "real \<Rightarrow> physical_product \<Rightarrow> bool \<times> physical_product" where
  "setWeight w p = (if w < 0 then (False, p) else (True, p\<lparr>weight := w\<rparr>))"

definition setSupplier :: "string \<Rightarrow> physical_product \<Rightarrow> physical_product" where
  "setSupplier sp p = p\<lparr>supplier := sp\<rparr>"

definition calculateShippingCost :: "physical_product \<Rightarrow> real" where
  "calculateShippingCost p =
     (if weight p \<le> 0 then 5.99 else 5.99 + weight p * 0.75)"

subsection \<open>DigitalProduct.cpp\<close>

definition DigitalProduct_default :: digital_product where
  "DigitalProduct_default =
     setCategory ''Digital''
       (Product_default (digital_product.fields '''' 0 ''Single''))"

definition DigitalProduct_new ::
  "string \<Rightarrow> string \<Rightarrow> real \<Rightarrow> int \<Rightarrow> string \<Rightarrow> string \<Rightarrow> real \<Rightarrow> string \<Rightarrow> digital_product" where
  "DigitalProduct_new sk nm pr qty cat link sz lic =
     Product_new sk nm pr qty cat
       (digital_product.fields link (if sz \<ge> 0 then sz else 0) lic)"

definition setDownloadLink :: "string \<Rightarrow> digital_product \<Rightarrow> digital_product" where
  "setDownloadLink link p = p\<lparr>downloadLink := link\<rparr>"

definition setFileSizeMB :: "real \<Rightarrow> digital_product \<Rightarrow> bool \<times> digital_product" where
  "setFileSizeMB sz p = (if sz < 0 then (False, p) else (True, p\<lparr>fileSizeMB := sz\<rparr>))"

definition setLicenseType :: "string \<Rightarrow> digital_product \<Rightarrow> digital_product" where
  "setLicenseType lic p = p\<lparr>licenseType := lic\<rparr>"

definition DigitalProduct_applyDiscount :: "real \<Rightarrow> digital_product \<Rightarrow> real" where
  "DigitalProduct_applyDiscount percentage p =
     (if percentage < 0 \<or> percentage > 100 then price p
      else (let bonusPercentage = min (percentage + 5) 50
            in price p * (1 - bonusPercentage / 100)))"

subsection \<open>Virtual dispatch through a \<open>Product*\<close>\<close>

fun getType :: "obj \<Rightarrow> string" where
  "getType (PhysicalObj p) = ''Physical''"
| "getType (DigitalObj d) = ''Digital''"

fun getSku :: "obj \<Rightarrow> string" where
  "getSku (PhysicalObj p) = sku p"
| "getSku (DigitalObj d) = sku d"

fun getName :: "obj \<Rightarrow> string" where
  "getName (PhysicalObj p) = name p"
| "getName (DigitalObj d) = name d"

fun getPrice :: "obj \<Rightarrow> real" where
  "getPrice (PhysicalObj p) = price p"
| "getPrice (DigitalObj d) = price d"

fun getQuantity :: "obj \<Rightarrow> int" where
  "getQuantity (PhysicalObj p) = quantity p"
| "getQuantity (DigitalObj d) = quantity d"

fun getCategory :: "obj \<Rightarrow> string" where
  "getCategory (PhysicalObj p) = category p"
| "getCategory (DigitalObj d) = category d"

text \<open>\<open>calculateValue\<close> is virtual but no derived class overrides it.\<close>

fun calculateValue :: "obj \<Rightarrow> real" where
  "calculateValue (PhysicalObj p) = Product_calculateValue p"
| "calculateValue (DigitalObj d) = Product_calculateValue d"

text \<open>\<open>applyDiscount\<close> is overridden by \<open>DigitalProduct\<close> only.\<close>

fun applyDiscount :: "real \<Rightarrow> obj \<Rightarrow> real" where
  "applyDiscount pct (PhysicalObj p) = Product_applyDiscount pct p"
| "applyDiscount pct (DigitalObj d) = DigitalProduct_applyDiscount pct d"

section \<open>The standard library's string streams and number formatting\<close>

text \<open>
  \<open>fromCSV\<close> reads a line through a \<open>std::stringstream\<close>.  The stream is the text not
  yet read and the two state bits the parsing depends on; \<open>badbit\<close> is never set on a
  string stream.  Every input function first checks \<open>good()\<close> and only sets \<open>failbit\<close>
  when the stream is not good.
\<close>

record sstream =
  buf :: string
  failbit :: bool
  eofbit :: bool

definition stringstream :: "string \<Rightarrow> sstream" where
  "stringstream str = \<lparr>buf = str, failbit = False, eofbit = False\<rparr>"

definition good :: "sstream \<Rightarrow> bool" where
  "good ss = (\<not> failbit ss \<and> \<not> eofbit ss)"

text \<open>
  \<open>std::getline(ss, str, delim)\<close>: on a stream that is not good the string keeps its
  value; otherwise the characters up to the delimiter are stored and the delimiter is
  dropped.  Reaching the end sets \<open>eofbit\<close>, and \<open>failbit\<close> too when nothing was extracted.
\<close>

definition getline :: "char \<Rightarrow> string \<Rightarrow> sstream \<Rightarrow> string \<times> sstream" where
  "getline delim str ss =
     (if \<not> good ss then (str, ss\<lparr>failbit := True\<rparr>)
      else (case dropWhile (\<lambda>c. c \<noteq> delim) (buf ss) of
              [] \<Rightarrow> (buf ss, ss\<lparr>buf := [], failbit := (buf ss = []), eofbit := True\<rparr>)
            | _ # rest \<Rightarrow> (takeWhile (\<lambda>c. c \<noteq> delim) (buf ss), ss\<lparr>buf := rest\<rparr>)))"

text \<open>\<open>ss.ignore(1)\<close>.\<close>

definition ignore1 :: "sstream \<Rightarrow> sstream" where
  "ignore1 ss =
     (if \<not> good ss then ss\<lparr>failbit := True\<rparr>
      else (case buf ss of
              [] \<Rightarrow> ss\<lparr>eofbit := True\<rparr>
            | _ # rest \<Rightarrow> ss\<lparr>buf := rest\<rparr>))"

definition isspace :: "char \<Rightarrow> bool" where
  "isspace c = (c = CHR '' '' \<or> c = CHR 0x09 \<or> c = CHR 0x0A \<or> c = CHR 0x0B
                \<or> c = CHR 0x0C \<or> c = CHR 0x0D)"

text \<open>
  The sentry of a formatted extraction (\<open>operator>>\<close>): it skips white space, and fails
  when the stream is not good before or after that.
\<close>

definition sentry :: "sstream \<Rightarrow> bool \<times> sstream" where
  "sentry ss =
     (if \<not> good ss then (False, ss\<lparr>failbit := True\<rparr>)
      else (let r = dropWhile isspace (buf ss)
            in if r = [] then (False, ss\<lparr>buf := [], failbit := True, eofbit := True\<rparr>)
               else (True, ss\<lparr>buf := r\<rparr>)))"

definition isdigit :: "char \<Rightarrow> bool" where
  "isdigit c = (48 \<le> (of_char c :: nat) \<and> (of_char c :: nat) \<le> 57)"

definition digit_val :: "char \<Rightarrow> nat" where
  "digit_val c = of_char c - 48"

definition digits_val :: "string \<Rightarrow> nat" where
  "digits_val ds = foldl (\<lambda>a c. 10 * a + digit_val c) 0 ds"

definition scan_sign :: "string \<Rightarrow> bool \<times> string" where
  "scan_sign s =
     (case s of
        [] \<Rightarrow> (False, s)
      | c # r \<Rightarrow> if c = CHR ''-'' then (True, r)
                 else if c = CHR ''+'' then (False, r) else (False, s))"

definition scan_digits :: "string \<Rightarrow> string \<times> string" where
  "scan_digits s = (takeWhile isdigit s, dropWhile isdigit s)"

definition INT_MAX :: int where
  "INT_MAX = 2147483647"

definition INT_MIN :: int where
  "INT_MIN = - 2147483648"

text \<open>
  \<open>num_get\<close> for an \<open>int\<close>: an optional sign and decimal digits.  The result is the
  value, whether the conversion succeeded, and the text left.  Without a digit the value
  is 0; out of range it is the nearest bound; both are failures.
\<close>

definition num_get_int :: "string \<Rightarrow> int \<times> bool \<times> string" where
  "num_get_int s =
     (let (neg, s1) = scan_sign s;
          (ds, s2) = scan_digits s1;
          v = (if neg then - int (digits_val ds) else int (digits_val ds))
      in if ds = [] then (0, False, s2)
         else if v > INT_MAX then (INT_MAX, False, s2)
         else if v < INT_MIN then (INT_MIN, False, s2)
         else (v, True, s2))"

text \<open>
  \<open>num_get\<close> for a \<open>double\<close>: an optional sign, digits with an optional decimal point,
  and an optional decimal exponent.  A mantissa without a digit, or an exponent mark
  without a digit, is a failure with value 0.  The value read is the exact decimal
  value (no rounding to a representable number, no overflow).
\<close>

definition num_get_float :: "string \<Rightarrow> real \<times> bool \<times> string" where
  "num_get_float s =
     (let (neg, s1) = scan_sign s;
          (ip, s2) = scan_digits s1;
          (fp, s3) = (case s2 of
                        [] \<Rightarrow> ([], s2)
                      | c # r \<Rightarrow> if c = CHR ''.'' then scan_digits r else ([], s2));
          mant = (if neg then - 1 else 1)
                   * (real (digits_val ip) + real (digits_val fp) / 10 ^ length fp)
      in if ip = [] \<and> fp = [] then (0, False, s3)
         else (case s3 of
                 [] \<Rightarrow> (mant, True, s3)
               | c # r \<Rightarrow>
                   if c = CHR ''e'' \<or> c = CHR ''E'' then
                     (let (eneg, s4) = scan_sign r;
                          (ed, s5) = scan_digits s4
                      in if ed = [] then (0, False, s5)
                         else if eneg then (mant / 10 ^ digits_val ed, True, s5)
                         else (mant * 10 ^ digits_val ed, True, s5))
                   else (mant, True, s3)))"

text \<open>
  \<open>ss >> x\<close> for a local variable \<open>x\<close>.  The variable is \<open>None\<close> while it is not
  initialised; when the sentry fails nothing is stored, so it stays as it was.  When the
  conversion fails 0 (or the bound) is stored and \<open>failbit\<close> is set.  Reading a number
  that ends the text sets \<open>eofbit\<close>.
\<close>

definition extract_int :: "int option \<Rightarrow> sstream \<Rightarrow> int option \<times> sstream" where
  "extract_int x ss =
     (case sentry ss of
        (False, ss1) \<Rightarrow> (x, ss1)
      | (True, ss1) \<Rightarrow>
          (let (v, ok, rest) = num_get_int (buf ss1)
           in (Some v, ss1\<lparr>buf := rest, failbit := \<not> ok, eofbit := (rest = [])\<rparr>)))"

definition extract_double :: "real option \<Rightarrow> sstream \<Rightarrow> real option \<times> sstream" where
  "extract_double x ss =
     (case sentry ss of
        (False, ss1) \<Rightarrow> (x, ss1)
      | (True, ss1) \<Rightarrow>
          (let (v, ok, rest) = num_get_float (buf ss1)
           in (Some v, ss1\<lparr>buf := rest, failbit := \<not> ok, eofbit := (rest = [])\<rparr>)))"








section \<open>The CSV codec (toCSV, fromCSV)\<close>





text \<open>
  \<open>fromCSV\<close> declares \<open>price\<close>, \<open>quantity\<close> and \<open>weight\<close> (\<open>fileSizeMB\<close>) without an
  initial value and passes them to the constructor whatever the stream's state.  When
  an extraction was refused by the sentry the variable is still indeterminate and the
  call reads it: the behaviour of the program is undefined, which is the error result.
  In every other case a new object is returned; the source has no path that returns
  a null pointer.
\<close>

datatype undefined_behaviour = IndeterminateRead

definition PhysicalProduct_fromCSV :: "string \<Rightarrow> undefined_behaviour + physical_product" where
  "PhysicalProduct_fromCSV csvLine =
     (let ss = stringstream csvLine;
          (ty, ss) = getline CHR '','' [] ss;
          (sk, ss) = getline CHR '','' [] ss;
          (nm, ss) = getline CHR '','' [] ss;
          (pr, ss) = extract_double None ss;
          ss = ignore1 ss;
          (qty, ss) = extract_int None ss;
          ss = ignore1 ss;
          (cat, ss) = getline CHR '','' [] ss;
          (w, ss) = extract_double None ss;
          ss = ignore1 ss;
          (sp, ss) = getline CHR 0x0A [] ss
      in (case (pr, qty, w) of
            (Some pr', Some qty', Some w') \<Rightarrow>
              Inr (PhysicalProduct_new sk nm pr' qty' cat w' sp)
          | _ \<Rightarrow> Inl IndeterminateRead))"

definition DigitalProduct_fromCSV :: "string \<Rightarrow> undefined_behaviour + digital_product" where
  "DigitalProduct_fromCSV csvLine =
     (let ss = stringstream csvLine;
          (ty, ss) = getline CHR '','' [] ss;
          (sk, ss) = getline CHR '','' [] ss;
          (nm, ss) = getline CHR '','' [] ss;
          (pr, ss) = extract_double None ss;
          ss = ignore1 ss;
          (qty, ss) = extract_int None ss;
          ss = ignore1 ss;
          (cat, ss) = getline CHR '','' [] ss;
          (link, ss) = getline CHR '','' [] ss;
          (sz, ss) = extract_double None ss;
          ss = ignore1 ss;
          (lic, ss) = getline CHR 0x0A [] ss
      in (case (pr, qty, sz) of
            (Some pr', Some qty', Some sz') \<Rightarrow>
              Inr (DigitalProduct_new sk nm pr' qty' cat link sz' lic)
          | _ \<Rightarrow> Inl IndeterminateRead))"

text \<open>
  The factory in the body of \<open>loadFromFile\<close>'s loop, for a line that is neither empty
  nor a comment: the text before the first comma selects the class, and \<open>None\<close> is the
  null pointer of an unrecognised tag.
\<close>

definition decode_line :: "string \<Rightarrow> undefined_behaviour + obj option" where
  "decode_line line =
     (let ty = takeWhile (\<lambda>c. c \<noteq> CHR '','') line
      in if ty = ''Physical'' then
           (case PhysicalProduct_fromCSV line of
              Inl e \<Rightarrow> Inl e | Inr p \<Rightarrow> Inr (Some (PhysicalObj p)))
         else if ty = ''Digital'' then
           (case DigitalProduct_fromCSV line of
              Inl e \<Rightarrow> Inl e | Inr d \<Rightarrow> Inr (Some (DigitalObj d)))
         else Inr None)"

section \<open>The inventory (Inventory.h, Inventory.cpp)\<close>

text \<open>
  The inventory holds \<open>Product*\<close> pointers twice: in the vector \<open>products\<close> and in the map
  \<open>skuIndex\<close>.  The objects live on the heap, a map from addresses to objects, so that a
  change made through one pointer is seen through every other.  A \<open>Product*\<close> that may
  be null is an \<open>addr option\<close>.  \<open>new\<close> takes the next address of a bump allocator.
  Dereferencing a pointer whose object has been deleted is undefined in C++ and is left
  unspecified here; \<open>wf\<close> below holds in every state the operations reach and says that
  every pointer the inventory holds is live.
\<close>

type_synonym addr = nat

record state =
  heap :: "addr \<rightharpoonup> obj"
  brk :: addr
  products :: "addr list"
  skuIndex :: "string \<rightharpoonup> addr"

definition Inventory_init :: state where
  "Inventory_init = \<lparr>heap = Map.empty, brk = 0, products = [], skuIndex = Map.empty\<rparr>"

definition deref :: "state \<Rightarrow> addr \<Rightarrow> obj" where
  "deref s a = the (heap s a)"

definition new_obj :: "obj \<Rightarrow> state \<Rightarrow> addr \<times> state" where
  "new_obj ob s = (brk s, s\<lparr>heap := (heap s)(brk s \<mapsto> ob), brk := Suc (brk s)\<rparr>)"

definition delete_obj :: "addr \<Rightarrow> state \<Rightarrow> state" where
  "delete_obj a s = s\<lparr>heap := (heap s)(a := None)\<rparr>"

text \<open>A call \<open>p->f(...)\<close> of a method that changes the object \<open>p\<close> points to.\<close>

definition modify :: "addr \<Rightarrow> (obj \<Rightarrow> obj) \<Rightarrow> state \<Rightarrow> state" where
  "modify a f s = s\<lparr>heap := (heap s)(a \<mapsto> f (deref s a))\<rparr>"

text \<open>The setters of the base class, called through a \<open>Product*\<close>.\<close>

fun obj_setName :: "string \<Rightarrow> obj \<Rightarrow> obj" where
  "obj_setName nm (PhysicalObj p) = PhysicalObj (setName nm p)"
| "obj_setName nm (DigitalObj d) = DigitalObj (setName nm d)"

fun obj_setPrice :: "real \<Rightarrow> obj \<Rightarrow> bool \<times> obj" where
  "obj_setPrice pr (PhysicalObj p) = map_prod id PhysicalObj (setPrice pr p)"
| "obj_setPrice pr (DigitalObj d) = map_prod id DigitalObj (setPrice pr d)"

fun obj_setQuantity :: "int \<Rightarrow> obj \<Rightarrow> bool \<times> obj" where
  "obj_setQuantity qty (PhysicalObj p) = map_prod id PhysicalObj (setQuantity qty p)"
| "obj_setQuantity qty (DigitalObj d) = map_prod id DigitalObj (setQuantity qty d)"

text \<open>
  \<open>rebuildIndex\<close> skips null pointers; the vector holds none, since \<open>addProduct\<close> is
  the only function that appends to it and it refuses a null pointer.
\<close>

definition rebuildIndex :: "state \<Rightarrow> state" where
  "rebuildIndex s =
     s\<lparr>skuIndex := foldl (\<lambda>m p. m(getSku (deref s p) \<mapsto> p)) Map.empty (products s)\<rparr>"

definition addProduct :: "addr option \<Rightarrow> state \<Rightarrow> bool \<times> state" where
  "addProduct product s =
     (case product of
        None \<Rightarrow> (False, s)
      | Some p \<Rightarrow>
          if skuIndex s (getSku (deref s p)) \<noteq> None then (False, s)
          else (True, s\<lparr>products := products s @ [p],
                        skuIndex := (skuIndex s)(getSku (deref s p) \<mapsto> p)\<rparr>))"

definition removeProduct :: "string \<Rightarrow> state \<Rightarrow> bool \<times> state" where
  "removeProduct k s =
     (case skuIndex s k of
        None \<Rightarrow> (False, s)
      | Some _ \<Rightarrow>
          (let s1 = (case List.find (\<lambda>p. getSku (deref s p) = k) (products s) of
                       None \<Rightarrow> s
                     | Some p \<Rightarrow> (delete_obj p s)\<lparr>products := remove1 p (products s)\<rparr>)
           in (True, s1\<lparr>skuIndex := (skuIndex s1)(k := None)\<rparr>)))"

definition getProduct :: "string \<Rightarrow> state \<Rightarrow> addr option" where
  "getProduct k s = skuIndex s k"

definition updateProduct :: "string \<Rightarrow> string \<Rightarrow> real \<Rightarrow> int \<Rightarrow> state \<Rightarrow> bool \<times> state" where
  "updateProduct k nm pr qty s =
     (case getProduct k s of
        None \<Rightarrow> (False, s)
      | Some p \<Rightarrow>
          (let s1 = (if nm \<noteq> [] then modify p (obj_setName nm) s else s);
               s2 = (if pr \<ge> 0 then modify p (\<lambda>ob. snd (obj_setPrice pr ob)) s1 else s1);
               s3 = (if qty \<ge> 0 then modify p (\<lambda>ob. snd (obj_setQuantity qty ob)) s2 else s2)
           in (True, s3)))"

text \<open>
  \<open>std::sort\<close> is library code: the sorting functions take it as a parameter, and
  \<open>std_sort_contract\<close> is what the C++ standard promises of it for a comparison that is
  a strict weak ordering: the result is a permutation in which no element is ordered
  before one that precedes it.  The standard promises nothing about the order of
  elements that compare equivalent.
\<close>

type_synonym sorter = "(addr \<Rightarrow> addr \<Rightarrow> bool) \<Rightarrow> addr list \<Rightarrow> addr list"

definition strict_weak_ordering :: "('a \<Rightarrow> 'a \<Rightarrow> bool) \<Rightarrow> bool" where
  "strict_weak_ordering cmp \<longleftrightarrow>
     (\<forall>x. \<not> cmp x x) \<and>
     (\<forall>x y z. cmp x y \<and> cmp y z \<longrightarrow> cmp x z) \<and>
     (\<forall>x y z. \<not> cmp x y \<and> \<not> cmp y x \<and> \<not> cmp y z \<and> \<not> cmp z y \<longrightarrow> \<not> cmp x z \<and> \<not> cmp z x)"

definition std_sort_contract :: "sorter \<Rightarrow> bool" where
  "std_sort_contract srt \<longleftrightarrow>
     (\<forall>cmp xs. strict_weak_ordering cmp \<longrightarrow>
        mset (srt cmp xs) = mset xs \<and> sorted_wrt (\<lambda>x y. \<not> cmp y x) (srt cmp xs))"

definition sortBySku :: "sorter \<Rightarrow> state \<Rightarrow> state" where
  "sortBySku std_sort s =
     rebuildIndex (s\<lparr>products :=
       std_sort (\<lambda>a b. getSku (deref s a) < getSku (deref s b)) (products s)\<rparr>)"

definition sortByName :: "sorter \<Rightarrow> state \<Rightarrow> state" where
  "sortByName std_sort s =
     rebuildIndex (s\<lparr>products :=
       std_sort (\<lambda>a b. getName (deref s a) < getName (deref s b)) (products s)\<rparr>)"

definition sortByPrice :: "sorter \<Rightarrow> state \<Rightarrow> state" where
  "sortByPrice std_sort s =
     rebuildIndex (s\<lparr>products :=
       std_sort (\<lambda>a b. getPrice (deref s a) < getPrice (deref s b)) (products s)\<rparr>)"

definition sortByQuantity :: "sorter \<Rightarrow> state \<Rightarrow> state" where
  "sortByQuantity std_sort s =
     rebuildIndex (s\<lparr>products :=
       std_sort (\<lambda>a b. getQuantity (deref s a) < getQuantity (deref s b)) (products s)\<rparr>)"

definition sortByValue :: "sorter \<Rightarrow> state \<Rightarrow> state" where
  "sortByValue std_sort s =
     rebuildIndex (s\<lparr>products :=
       std_sort (\<lambda>a b. calculateValue (deref s a) > calculateValue (deref s b)) (products s)\<rparr>)"

definition getProductCount :: "state \<Rightarrow> nat" where
  "getProductCount s = length (products s)"

definition isEmpty :: "state \<Rightarrow> bool" where
  "isEmpty s = (products s = [])"

definition skuExists :: "string \<Rightarrow> state \<Rightarrow> bool" where
  "skuExists k s = (skuIndex s k \<noteq> None)"

definition clearAll :: "state \<Rightarrow> state" where
  "clearAll s =
     s\<lparr>heap := foldl (\<lambda>h p. h(p := None)) (heap s) (products s),
       products := [], skuIndex := Map.empty\<rparr>"

text \<open>
  The loop of \<open>loadFromFile\<close> over the lines that \<open>std::getline\<close> delivers.  An object
  that \<open>addProduct\<close> refuses is not deleted: it stays on the heap.
\<close>

fun load_lines :: "string list \<Rightarrow> state \<Rightarrow> undefined_behaviour + state" where
  "load_lines [] s = Inr s"
| "load_lines (line # rest) s =
     (if line = [] \<or> hd line = CHR ''#'' then load_lines rest s
      else (case decode_line line of
              Inl e \<Rightarrow> Inl e
            | Inr None \<Rightarrow> load_lines rest s
            | Inr (Some ob) \<Rightarrow>
                (let (p, s1) = new_obj ob s
                 in load_lines rest (snd (addProduct (Some p) s1)))))"

text \<open>
  \<open>loadFromFile\<close>: the file at \<open>dataFilePath\<close> is \<open>None\<close> when it cannot be opened and
  its lines otherwise.
\<close>

definition loadFromFile :: "string list option \<Rightarrow> state \<Rightarrow> undefined_behaviour + bool \<times> state" where
  "loadFromFile file s =
     (case file of
        None \<Rightarrow> Inr (False, s)
      | Some content \<Rightarrow>
          (case load_lines content (clearAll s) of
             Inl e \<Rightarrow> Inl e
           | Inr s1 \<Rightarrow> Inr (True, s1)))"

text \<open>
  The lines for which the loop adds nothing and goes on: the empty line, the comment,
  and the line whose tag leaves \<open>product\<close> null.
\<close>

definition skipped :: "string \<Rightarrow> bool" where
  "skipped line \<longleftrightarrow>
     line = [] \<or> hd line = CHR ''#''
     \<or> takeWhile (\<lambda>c. c \<noteq> CHR '','') line \<notin> {''Physical'', ''Digital''}"

subsection \<open>Sequences of operations\<close>

text \<open>
  The calls a client makes.  \<open>Add\<close> follows \<open>addProduct\<close> in main.cpp: the object
  is allocated, offered to the inventory, and deleted when the inventory refuses it.
  \<open>run\<close> stops at the first call whose behaviour is undefined.
\<close>

datatype op =
    Add obj
  | AddNull
  | Remove string
  | Update string string real int
  | SortBySku | SortByName | SortByPrice | SortByQuantity | SortByValue
  | Load "string list option"
  | Clear

definition client_add :: "obj \<Rightarrow> state \<Rightarrow> state" where
  "client_add ob s =
     (let (p, s1) = new_obj ob s;
          (ok, s2) = addProduct (Some p) s1
      in if ok then s2 else delete_obj p s2)"

fun step :: "sorter \<Rightarrow> op \<Rightarrow> state \<Rightarrow> undefined_behaviour + state" where
  "step srt (Add ob) s = Inr (client_add ob s)"
| "step srt AddNull s = Inr (snd (addProduct None s))"
| "step srt (Remove k) s = Inr (snd (removeProduct k s))"
| "step srt (Update k nm pr qty) s = Inr (snd (updateProduct k nm pr qty s))"
| "step srt SortBySku s = Inr (sortBySku srt s)"
| "step srt SortByName s = Inr (sortByName srt s)"
| "step srt SortByPrice s = Inr (sortByPrice srt s)"
| "step srt SortByQuantity s = Inr (sortByQuantity srt s)"
| "step srt SortByValue s = Inr (sortByValue srt s)"
| "step srt (Load file) s = map_sum id snd (loadFromFile file s)"
| "step srt Clear s = Inr (clearAll s)"

fun run :: "sorter \<Rightarrow> op list \<Rightarrow> state \<Rightarrow> undefined_behaviour + state" where
  "run srt [] s = Inr s"
| "run srt (x # xs) s = (case step srt x s of Inl e \<Rightarrow> Inl e | Inr s1 \<Rightarrow> run srt xs s1)"

text \<open>A sequence of \<open>addProduct\<close> calls with any pointers.\<close>

definition add_all :: "addr option list \<Rightarrow> state \<Rightarrow> state" where
  "add_all ps s = foldl (\<lambda>s1 p. snd (addProduct p s1)) s ps"

text \<open>The skus of the sequence, in order.\<close>

definition skus :: "state \<Rightarrow> string list" where
  "skus s = map (\<lambda>p. getSku (deref s p)) (products s)"

text \<open>
  The invariant of the inventory: the pointers of the sequence are live, the allocator
  is ahead of the heap, no two records of the sequence share a sku, and the index maps
  exactly the skus of the sequence, each to its record.
\<close>

definition index_exact :: "state \<Rightarrow> bool" where
  "index_exact s \<longleftrightarrow>
     (\<forall>k p. skuIndex s k = Some p \<longleftrightarrow> p \<in> set (products s) \<and> getSku (deref s p) = k)"

definition wf :: "state \<Rightarrow> bool" where
  "wf s \<longleftrightarrow>
     set (products s) \<subseteq> dom (heap s) \<and>
     dom (heap s) \<subseteq> {..<brk s} \<and>
     distinct (skus s) \<and>
     index_exact s"

text \<open>The index agrees with the sequence.\<close>

definition index_consistent :: "state \<Rightarrow> bool" where
  "index_consistent s \<longleftrightarrow>
     (\<forall>p \<in> set (products s). getProduct (getSku (deref s p)) s = Some p) \<and>
     dom (skuIndex s) = set (skus s)"

text \<open>
  Two sorting functions that meet \<open>std_sort_contract\<close>: insertion sorts that place an
  element after (\<open>insertion_sort\<close>) or before (\<open>insertion_sort_rev\<close>) the elements
  equivalent to it.
\<close>

fun insert_after :: "('a \<Rightarrow> 'a \<Rightarrow> bool) \<Rightarrow> 'a \<Rightarrow> 'a list \<Rightarrow> 'a list" where
  "insert_after cmp x [] = [x]"
| "insert_after cmp x (y # ys) = (if cmp x y then x # y # ys else y # insert_after cmp x ys)"


definition insertion_sort :: "('a \<Rightarrow> 'a \<Rightarrow> bool) \<Rightarrow> 'a list \<Rightarrow> 'a list" where
  "insertion_sort cmp xs = foldl (\<lambda>acc x. insert_after cmp x acc) [] xs"


subsection \<open>Auxiliary definitions for the statements\<close>

text \<open>
  What the interface documents of \<open>updateProduct\<close> for a record that is found: an empty
  name, a negative price and a negative quantity each keep the current value, every
  other value replaces it, and no other field changes.
\<close>

definition updated_fields :: "string \<Rightarrow> real \<Rightarrow> int \<Rightarrow> 'a product_scheme \<Rightarrow> 'a product_scheme" where
  "updated_fields nm pr qty x =
     x\<lparr>name := (if nm = [] then name x else nm),
       price := (if pr < 0 then price x else pr),
       quantity := (if qty < 0 then quantity x else qty)\<rparr>"

fun updated_obj :: "string \<Rightarrow> real \<Rightarrow> int \<Rightarrow> obj \<Rightarrow> obj" where
  "updated_obj nm pr qty (PhysicalObj x) = PhysicalObj (updated_fields nm pr qty x)"
| "updated_obj nm pr qty (DigitalObj x) = DigitalObj (updated_fields nm pr qty x)"


text \<open>
  The inventory of section 8 of the specification: three records with the values 50,
  200 and 50, added in this order.
\<close>

definition ex_A :: obj where
  "ex_A = PhysicalObj (PhysicalProduct_new ''A'' ''Anvil'' 10 5 ''Tools'' 20 ''Acme'')"

definition ex_B :: obj where
  "ex_B = DigitalObj (DigitalProduct_new ''B'' ''Book'' 100 2 ''Media'' ''http://b'' 3 ''Single'')"

definition ex_C :: obj where
  "ex_C = PhysicalObj (PhysicalProduct_new ''C'' ''Chisel'' 25 2 ''Tools'' 1 ''Acme'')"

definition ex_inventory :: state where
  "ex_inventory = client_add ex_C (client_add ex_B (client_add ex_A Inventory_init))"

chapter \<open>Properties\<close>

section \<open>The inventory invariant\<close>

text \<open>
  \<open>addProduct\<close> keeps the skus of the sequence distinct and the index exact; so does
  every other operation, on a state that satisfies \<open>wf\<close>.
\<close>

lemma getSku_obj_setName [simp]: "getSku (obj_setName nm ob) = getSku ob"
  by (cases ob) (simp_all add: setName_def)

lemma getSku_obj_setPrice [simp]: "getSku (snd (obj_setPrice pr ob)) = getSku ob"
  by (cases ob) (simp_all add: setPrice_def)

lemma getSku_obj_setQuantity [simp]: "getSku (snd (obj_setQuantity q ob)) = getSku ob"
  by (cases ob) (simp_all add: setQuantity_def)

lemma addProduct_heap [simp]: "heap (snd (addProduct p s)) = heap s"
  by (simp add: addProduct_def split: option.splits)

lemma addProduct_brk [simp]: "brk (snd (addProduct p s)) = brk s"
  by (simp add: addProduct_def split: option.splits)

lemma deref_addProduct [simp]: "deref (snd (addProduct p s)) = deref s"
  by (simp add: deref_def fun_eq_iff)

lemma addProduct_keeps:
  assumes "distinct (skus s)" "index_exact s"
  shows "distinct (skus (snd (addProduct p s))) \<and> index_exact (snd (addProduct p s))"
proof (cases p)
  case None
  with assms show ?thesis by (simp add: addProduct_def)
next
  case (Some a)
  show ?thesis
  proof (cases "skuIndex s (getSku (deref s a)) = None")
    case False
    with Some assms show ?thesis by (simp add: addProduct_def)
  next
    case True
    let ?s = "s\<lparr>products := products s @ [a], skuIndex := (skuIndex s)(getSku (deref s a) \<mapsto> a)\<rparr>"
    have eq: "snd (addProduct p s) = ?s" using Some True by (simp add: addProduct_def)
    have d: "deref ?s = deref s" by (simp add: deref_def fun_eq_iff)
    have notin: "getSku (deref s a) \<notin> set (skus s)"
    proof
      assume "getSku (deref s a) \<in> set (skus s)"
      then obtain q where "q \<in> set (products s)" "getSku (deref s q) = getSku (deref s a)"
        by (auto simp: skus_def)
      with assms(2) have "skuIndex s (getSku (deref s a)) = Some q"
        by (simp add: index_exact_def)
      with True show False by simp
    qed
    have "distinct (skus ?s)" using assms(1) notin by (simp add: skus_def d)
    moreover have "index_exact ?s"
      unfolding index_exact_def d
    proof (intro allI)
      fix k q
      show "skuIndex ?s k = Some q \<longleftrightarrow> q \<in> set (products ?s) \<and> getSku (deref s q) = k"
      proof (cases "k = getSku (deref s a)")
        case True
        have "q \<in> set (products s) \<Longrightarrow> getSku (deref s q) \<in> set (skus s)"
          by (simp add: skus_def)
        with notin have "q \<in> set (products s) \<Longrightarrow> getSku (deref s q) \<noteq> getSku (deref s a)"
          by metis
        with True show ?thesis by auto
      next
        case False
        with assms(2) show ?thesis by (auto simp: index_exact_def)
      qed
    qed
    ultimately show ?thesis by (simp only: eq)
  qed
qed

lemma add_all_keeps:
  "distinct (skus s) \<Longrightarrow> index_exact s \<Longrightarrow>
     distinct (skus (add_all ps s)) \<and> index_exact (add_all ps s)"
proof (induction ps arbitrary: s)
  case Nil
  then show ?case by (simp add: add_all_def)
next
  case (Cons p ps)
  from addProduct_keeps[OF Cons.prems, of p] Cons.IH[of "snd (addProduct p s)"]
  show ?case by (simp add: add_all_def)
qed

lemma in_skus_iff:
  assumes "index_exact s"
  shows "k \<in> set (skus s) \<longleftrightarrow> skuIndex s k \<noteq> None"
proof
  assume "k \<in> set (skus s)"
  then obtain q where "q \<in> set (products s)" "getSku (deref s q) = k"
    by (auto simp: skus_def)
  with assms have "skuIndex s k = Some q" by (simp add: index_exact_def)
  then show "skuIndex s k \<noteq> None" by simp
next
  assume "skuIndex s k \<noteq> None"
  then obtain q where "skuIndex s k = Some q" by auto
  with assms have "q \<in> set (products s)" "getSku (deref s q) = k"
    by (simp_all add: index_exact_def)
  then show "k \<in> set (skus s)" by (auto simp: skus_def)
qed

lemma empty_ok: "products s = [] \<Longrightarrow> skuIndex s = Map.empty \<Longrightarrow> distinct (skus s) \<and> index_exact s"
  by (simp add: skus_def index_exact_def)

lemma wf_init: "wf Inventory_init"
  by (simp add: wf_def Inventory_init_def skus_def index_exact_def)

lemma wf_frame:
  assumes "wf s" "products s' = products s" "skuIndex s' = skuIndex s"
    "\<And>p. p \<in> set (products s) \<Longrightarrow> p \<in> dom (heap s') \<and> getSku (deref s' p) = getSku (deref s p)"
    "dom (heap s') \<subseteq> {..<brk s'}"
  shows "wf s'"
proof -
  have sk: "skus s' = skus s" using assms(2,4) by (simp add: skus_def)
  have "index_exact s'"
    unfolding index_exact_def
  proof (intro allI)
    fix k p
    have "skuIndex s k = Some p \<longleftrightarrow> p \<in> set (products s) \<and> getSku (deref s p) = k"
      using assms(1) by (simp add: wf_def index_exact_def)
    then show "skuIndex s' k = Some p \<longleftrightarrow> p \<in> set (products s') \<and> getSku (deref s' p) = k"
      using assms(2,3,4) by auto
  qed
  moreover have "set (products s') \<subseteq> dom (heap s')" using assms(2,4) by auto
  moreover have "distinct (skus s')" using assms(1) sk by (simp add: wf_def)
  ultimately show ?thesis using assms(5) by (simp add: wf_def)
qed

lemma wf_fresh: "wf s \<Longrightarrow> brk s \<notin> set (products s)"
  by (auto simp: wf_def)

lemma wf_new_obj:
  assumes "wf s" shows "wf (snd (new_obj ob s))"
proof (rule wf_frame[OF assms])
  fix p assume "p \<in> set (products s)"
  with wf_fresh[OF assms] have "p \<noteq> brk s" by auto
  moreover have "p \<in> dom (heap s)" using assms \<open>p \<in> set (products s)\<close> by (auto simp: wf_def)
  ultimately show "p \<in> dom (heap (snd (new_obj ob s))) \<and>
         getSku (deref (snd (new_obj ob s)) p) = getSku (deref s p)"
    by (simp add: new_obj_def deref_def)
next
  show "dom (heap (snd (new_obj ob s))) \<subseteq> {..<brk (snd (new_obj ob s))}"
    using assms by (auto simp: new_obj_def wf_def less_Suc_eq)
qed (simp_all add: new_obj_def)

lemma products_addProduct: "set (products (snd (addProduct p s))) \<subseteq> set (products s) \<union> set_option p"
  by (auto simp: addProduct_def split: option.splits if_splits)

lemma wf_addProduct:
  assumes "wf s" "set_option p \<subseteq> dom (heap s)"
  shows "wf (snd (addProduct p s))"
proof -
  have "distinct (skus (snd (addProduct p s)))" "index_exact (snd (addProduct p s))"
    using addProduct_keeps[of s p] assms(1) by (simp_all add: wf_def)
  moreover have "set (products (snd (addProduct p s))) \<subseteq> dom (heap s)"
    using products_addProduct[of p s] assms by (auto simp: wf_def)
  ultimately show ?thesis using assms(1) by (simp add: wf_def)
qed

lemma addProduct_fail: "\<not> fst (addProduct p s) \<Longrightarrow> snd (addProduct p s) = s"
  by (simp add: addProduct_def split: option.splits if_splits)

lemma wf_delete_unowned:
  assumes "wf s" "p \<notin> set (products s)"
  shows "wf (delete_obj p s)"
proof (rule wf_frame[OF assms(1)])
  fix q assume "q \<in> set (products s)"
  with assms show "q \<in> dom (heap (delete_obj p s)) \<and> getSku (deref (delete_obj p s) q) = getSku (deref s q)"
    by (auto simp: delete_obj_def deref_def wf_def)
next
  show "dom (heap (delete_obj p s)) \<subseteq> {..<brk (delete_obj p s)}"
    using assms(1) by (auto simp: delete_obj_def wf_def)
qed (simp_all add: delete_obj_def)

lemma wf_load_add:
  assumes "wf s"
  shows "wf (snd (addProduct (Some (fst (new_obj ob s))) (snd (new_obj ob s))))"
  by (rule wf_addProduct[OF wf_new_obj[OF assms]]) (simp add: new_obj_def)

lemma wf_client_add:
  assumes "wf s" shows "wf (client_add ob s)"
proof -
  let ?p = "fst (new_obj ob s)" and ?s1 = "snd (new_obj ob s)"
  let ?r = "addProduct (Some ?p) ?s1"
  have w2: "wf (snd ?r)" by (rule wf_load_add[OF assms])
  show ?thesis
  proof (cases "fst ?r")
    case True
    then show ?thesis using w2 by (simp add: client_add_def split_def Let_def)
  next
    case False
    then have eq: "snd ?r = ?s1" by (rule addProduct_fail)
    have "?p \<notin> set (products ?s1)" using wf_fresh[OF assms] by (simp add: new_obj_def)
    then have "wf (delete_obj ?p ?s1)" by (rule wf_delete_unowned[OF wf_new_obj[OF assms]])
    with False eq show ?thesis by (simp add: client_add_def split_def Let_def)
  qed
qed

lemma foldl_delete:
  "foldl (\<lambda>h p. h(p := None)) h ps = (\<lambda>a. if a \<in> set ps then None else h a)"
  by (induction ps arbitrary: h) (auto simp: fun_eq_iff)

lemma wf_clearAll:
  assumes "wf s" shows "wf (clearAll s)"
proof -
  have "dom (heap (clearAll s)) \<subseteq> dom (heap s)"
    by (auto simp: clearAll_def foldl_delete split: if_splits)
  with assms have "dom (heap (clearAll s)) \<subseteq> {..<brk (clearAll s)}"
    by (auto simp: wf_def clearAll_def)
  then show ?thesis
    by (simp add: wf_def skus_def index_exact_def) (simp add: clearAll_def)
qed

lemma wf_distinct_products: "wf s \<Longrightarrow> distinct (products s)"
  by (simp add: wf_def skus_def distinct_map)

lemma find_unique:
  assumes "distinct (map f xs)" "a \<in> set xs"
  shows "List.find (\<lambda>p. f p = f a) xs = Some a"
  using assms by (induction xs) (auto simp: image_iff)

lemma wf_removeProduct:
  assumes "wf s" shows "wf (snd (removeProduct k s))"
proof (cases "skuIndex s k")
  case None
  with assms show ?thesis by (simp add: removeProduct_def)
next
  case (Some a)
  with assms have a: "a \<in> set (products s)" "getSku (deref s a) = k"
    by (simp_all add: wf_def index_exact_def)
  have dm: "distinct (map (\<lambda>p. getSku (deref s p)) (products s))"
    using assms by (simp add: wf_def skus_def)
  have dp: "distinct (products s)" by (rule wf_distinct_products[OF assms])
  have inj: "inj_on (\<lambda>p. getSku (deref s p)) (set (products s))"
    using dm by (simp add: distinct_map)
  have f: "List.find (\<lambda>p. getSku (deref s p) = k) (products s) = Some a"
    using find_unique[OF dm a(1)] a(2) by simp
  let ?s = "s\<lparr>heap := (heap s)(a := None), products := remove1 a (products s),
               skuIndex := (skuIndex s)(k := None)\<rparr>"
  have eq: "snd (removeProduct k s) = ?s"
    using Some f by (simp add: removeProduct_def delete_obj_def)
  have d: "\<And>p. p \<noteq> a \<Longrightarrow> deref ?s p = deref s p" by (simp add: deref_def)
  have ps: "set (products ?s) = set (products s) - {a}" using dp by simp
  have sk: "skus ?s = map (\<lambda>p. getSku (deref s p)) (remove1 a (products s))"
    unfolding skus_def using dp d by auto
  have 1: "set (products ?s) \<subseteq> dom (heap ?s)" using assms ps by (auto simp: wf_def)
  have 2: "dom (heap ?s) \<subseteq> {..<brk ?s}" using assms by (auto simp: wf_def)
  have 3: "distinct (skus ?s)" unfolding sk using dm dp
    by (simp add: distinct_map distinct_remove1 inj_on_def)
  have 4: "index_exact ?s"
    unfolding index_exact_def
  proof (intro allI)
    fix k' p
    have ix: "skuIndex s k' = Some p \<longleftrightarrow> p \<in> set (products s) \<and> getSku (deref s p) = k'"
      using assms by (simp add: wf_def index_exact_def)
    show "skuIndex ?s k' = Some p \<longleftrightarrow> p \<in> set (products ?s) \<and> getSku (deref ?s p) = k'"
    proof (cases "p = a")
      case True
      then show ?thesis using ix a dp by auto
    next
      case False
      have "p \<in> set (products s) \<Longrightarrow> getSku (deref s p) \<noteq> k"
        using inj a False by (auto simp: inj_on_def)
      then show ?thesis using ix False d[OF False] ps by auto
    qed
  qed
  show ?thesis unfolding eq wf_def using 1 2 3 4 by blast
qed

lemma deref_modify: "deref (modify a f s) p = (if p = a then f (deref s a) else deref s p)"
  by (simp add: modify_def deref_def)

lemma wf_modify:
  assumes "wf s" "a \<in> set (products s)" "\<And>ob. getSku (f ob) = getSku ob"
  shows "wf (modify a f s)"
proof (rule wf_frame[OF assms(1)])
  fix p assume "p \<in> set (products s)"
  then show "p \<in> dom (heap (modify a f s)) \<and> getSku (deref (modify a f s) p) = getSku (deref s p)"
    using assms(1,3) by (auto simp: deref_modify) (auto simp: modify_def wf_def)
next
  show "dom (heap (modify a f s)) \<subseteq> {..<brk (modify a f s)}"
    using assms(1,2) by (auto simp: modify_def wf_def)
qed (simp_all add: modify_def)

lemma wf_updateProduct:
  assumes "wf s" shows "wf (snd (updateProduct k nm pr qty s))"
proof (cases "skuIndex s k")
  case None
  with assms show ?thesis by (simp add: updateProduct_def getProduct_def)
next
  case (Some a)
  with assms have a: "a \<in> set (products s)" by (simp add: wf_def index_exact_def)
  have m: "\<And>t f. wf t \<Longrightarrow> products t = products s \<Longrightarrow> (\<And>ob. getSku (f ob) = getSku ob)
     \<Longrightarrow> wf (modify a f t) \<and> products (modify a f t) = products s"
    using a by (simp add: wf_modify) (simp add: modify_def)
  let ?s1 = "if nm \<noteq> [] then modify a (obj_setName nm) s else s"
  let ?s2 = "if pr \<ge> 0 then modify a (\<lambda>ob. snd (obj_setPrice pr ob)) ?s1 else ?s1"
  let ?s3 = "if qty \<ge> 0 then modify a (\<lambda>ob. snd (obj_setQuantity qty ob)) ?s2 else ?s2"
  have 1: "wf ?s1 \<and> products ?s1 = products s" using m[OF assms, of "obj_setName nm"] assms by simp
  have 2: "wf ?s2 \<and> products ?s2 = products s"
    using m[of ?s1 "\<lambda>ob. snd (obj_setPrice pr ob)"] 1 by (cases "pr \<ge> 0") simp_all
  have 3: "wf ?s3"
    using m[of ?s2 "\<lambda>ob. snd (obj_setQuantity qty ob)"] 2 by (cases "qty \<ge> 0") simp_all
  show ?thesis using 3 Some by (simp add: updateProduct_def getProduct_def Let_def)
qed

lemma foldl_index:
  "distinct (map f ps) \<Longrightarrow>
     foldl (\<lambda>m p. m(f p \<mapsto> p)) m0 ps k =
       (if k \<in> f ` set ps then Some (the_inv_into (set ps) f k) else m0 k)"
proof (induction ps arbitrary: m0)
  case Nil
  then show ?case by simp
next
  case (Cons a ps)
  have inj: "inj_on f (set (a # ps))" using Cons.prems distinct_map[of f "a # ps"] by blast
  show ?case
  proof (cases "k \<in> f ` set ps")
    case True
    then obtain q where q: "q \<in> set ps" "f q = k" by auto
    have "the_inv_into (set ps) f k = q"
      using q inj by (auto intro!: the_inv_into_f_eq simp: inj_on_def)
    moreover have "the_inv_into (set (a # ps)) f k = q"
      using q inj by (intro the_inv_into_f_eq) auto
    ultimately show ?thesis using Cons True by auto
  next
    case False
    show ?thesis
    proof (cases "k = f a")
      case True
      have "the_inv_into (set (a # ps)) f (f a) = a"
        using inj by (intro the_inv_into_f_eq) auto
      with True False Cons show ?thesis by auto
    next
      case False2: False
      with False Cons show ?thesis by auto
    qed
  qed
qed

lemma rebuild_exact:
  assumes "distinct (skus s)"
  shows "index_exact (rebuildIndex s)"
  unfolding index_exact_def
proof (intro allI)
  fix k p
  let ?f = "\<lambda>p. getSku (deref s p)"
  have d: "distinct (map ?f (products s))" using assms by (simp add: skus_def)
  have inj: "inj_on ?f (set (products s))" using d by (simp add: distinct_map)
  have de: "deref (rebuildIndex s) = deref s" by (simp add: rebuildIndex_def deref_def fun_eq_iff)
  have ix: "skuIndex (rebuildIndex s) k =
     (if k \<in> ?f ` set (products s) then Some (the_inv_into (set (products s)) ?f k) else None)"
    by (simp add: rebuildIndex_def foldl_index[OF d])
  show "skuIndex (rebuildIndex s) k = Some p \<longleftrightarrow>
        p \<in> set (products (rebuildIndex s)) \<and> getSku (deref (rebuildIndex s) p) = k"
  proof
    assume "skuIndex (rebuildIndex s) k = Some p"
    with ix have k: "k \<in> ?f ` set (products s)" and p: "p = the_inv_into (set (products s)) ?f k"
      by (auto split: if_splits)
    then obtain q where q: "q \<in> set (products s)" "?f q = k" by auto
    then have "the_inv_into (set (products s)) ?f k = q"
      using inj by (auto intro!: the_inv_into_f_eq)
    with p q show "p \<in> set (products (rebuildIndex s)) \<and> getSku (deref (rebuildIndex s) p) = k"
      by (simp add: de) (simp add: rebuildIndex_def)
  next
    assume "p \<in> set (products (rebuildIndex s)) \<and> getSku (deref (rebuildIndex s) p) = k"
    then have "p \<in> set (products (rebuildIndex s))" "?f p = k" by (simp_all add: de)
    then have q: "p \<in> set (products s)" "?f p = k" by (simp_all add: rebuildIndex_def)
    then have "the_inv_into (set (products s)) ?f k = p"
      using inj by (auto intro!: the_inv_into_f_eq)
    with q ix show "skuIndex (rebuildIndex s) k = Some p" by auto
  qed
qed

lemma wf_resort:
  assumes "wf s" "mset ps = mset (products s)"
  shows "wf (rebuildIndex (s\<lparr>products := ps\<rparr>))"
proof -
  let ?t = "s\<lparr>products := ps\<rparr>"
  have se: "set ps = set (products s)" using assms(2) by (rule mset_eq_setD)
  have "mset (skus ?t) = mset (skus s)"
    using assms(2) by (simp add: skus_def deref_def)
  then have d: "distinct (skus ?t)" using assms(1) mset_eq_imp_distinct_iff[of "skus ?t" "skus s"] by (simp add: wf_def)
  have ix: "index_exact (rebuildIndex ?t)" by (rule rebuild_exact[OF d])
  have de: "deref (rebuildIndex ?t) = deref ?t" by (simp add: rebuildIndex_def deref_def fun_eq_iff)
  have "skus (rebuildIndex ?t) = skus ?t" by (simp add: skus_def de) (simp add: rebuildIndex_def)
  with d ix assms(1) se show ?thesis
    by (simp add: wf_def) (simp add: rebuildIndex_def)
qed

lemma swo_less: "strict_weak_ordering (\<lambda>a b. (f a :: 'b :: linorder) < f b)"
  by (auto simp: strict_weak_ordering_def)

lemma swo_greater: "strict_weak_ordering (\<lambda>a b. (f a :: 'b :: linorder) > f b)"
  by (auto simp: strict_weak_ordering_def)

lemma contract_mset: "std_sort_contract srt \<Longrightarrow> strict_weak_ordering cmp \<Longrightarrow> mset (srt cmp xs) = mset xs"
  by (simp add: std_sort_contract_def)


lemma wf_sorts:
  assumes "std_sort_contract srt" "wf s"
  shows "wf (sortBySku srt s)" "wf (sortByName srt s)" "wf (sortByPrice srt s)"
    "wf (sortByQuantity srt s)" "wf (sortByValue srt s)"
  unfolding sortBySku_def sortByName_def sortByPrice_def sortByQuantity_def sortByValue_def
  by (rule wf_resort[OF assms(2)], rule contract_mset[OF assms(1)], (rule swo_less | rule swo_greater))+

lemma wf_load_lines:
  "wf s \<Longrightarrow> load_lines ls s = Inr s' \<Longrightarrow> wf s'"
proof (induction ls arbitrary: s)
  case Nil
  then show ?case by simp
next
  case (Cons l ls)
  show ?case
  proof (cases "l = [] \<or> hd l = CHR ''#''")
    case True
    with Cons show ?thesis by simp
  next
    case False
    show ?thesis
    proof (cases "decode_line l")
      case (Inl e)
      with False Cons.prems show ?thesis by simp
    next
      case (Inr r)
      show ?thesis
      proof (cases r)
        case None
        with Inr False Cons show ?thesis by simp
      next
        case (Some ob)
        with Inr False Cons.prems(2)
        have "load_lines ls (snd (addProduct (Some (fst (new_obj ob s))) (snd (new_obj ob s)))) = Inr s'"
          by (simp add: split_def Let_def)
        then show ?thesis by (rule Cons.IH[OF wf_load_add[OF Cons.prems(1)]])
      qed
    qed
  qed
qed

lemma wf_step:
  assumes "std_sort_contract srt" "wf s" "step srt x s = Inr s'"
  shows "wf s'"
proof (cases x)
  case (Load fl)
  show ?thesis
  proof (cases fl)
    case None
    with Load assms show ?thesis by (simp add: loadFromFile_def)
  next
    case (Some content)
    with Load assms(3) have "load_lines content (clearAll s) = Inr s'"
      by (auto simp: loadFromFile_def split: sum.splits)
    then show ?thesis by (rule wf_load_lines[OF wf_clearAll[OF assms(2)]])
  qed
qed (use assms wf_sorts[OF assms(1,2)] in
      \<open>auto simp: wf_client_add wf_removeProduct wf_updateProduct wf_clearAll addProduct_def\<close>)

lemma wf_run:
  "std_sort_contract srt \<Longrightarrow> wf s \<Longrightarrow> run srt xs s = Inr s' \<Longrightarrow> wf s'"
proof (induction xs arbitrary: s)
  case Nil
  then show ?case by simp
next
  case (Cons x xs)
  from Cons.prems(3) obtain s1 where s1: "step srt x s = Inr s1" "run srt xs s1 = Inr s'"
    by (auto split: sum.splits)
  from wf_step[OF Cons.prems(1,2) s1(1)] have "wf s1" .
  then show ?case by (rule Cons.IH[OF Cons.prems(1) _ s1(2)])
qed

lemma wf_index_consistent: "wf s \<Longrightarrow> index_consistent s"
  unfolding index_consistent_def getProduct_def
proof
  assume w: "wf s"
  then show "\<forall>p\<in>set (products s). skuIndex s (getSku (deref s p)) = Some p"
    by (simp add: wf_def index_exact_def)
  have "\<And>k. k \<in> dom (skuIndex s) \<longleftrightarrow> k \<in> set (skus s)"
    using in_skus_iff[of s] w by (auto simp: wf_def)
  then show "dom (skuIndex s) = set (skus s)" by blast
qed

lemma modify_modify: "modify a f (modify a g s) = modify a (\<lambda>ob. f (g ob)) s"
  by (simp add: modify_def deref_def)

lemma modify_id: "heap s a = Some ob \<Longrightarrow> modify a (\<lambda>ob. ob) s = s"
  by (simp add: modify_def deref_def fun_upd_idem)

lemma update_steps:
  "(if qty \<ge> 0 then \<lambda>ob. snd (obj_setQuantity qty ob) else (\<lambda>ob. ob))
     ((if pr \<ge> 0 then \<lambda>ob. snd (obj_setPrice pr ob) else (\<lambda>ob. ob))
       ((if nm \<noteq> [] then obj_setName nm else (\<lambda>ob. ob)) ob))
   = updated_obj nm pr qty ob"
  by (cases ob) (auto simp: updated_fields_def setName_def setPrice_def setQuantity_def)

lemma updateProduct_found:
  assumes "skuIndex s k = Some p" "heap s p = Some ob"
  shows "updateProduct k nm pr qty s = (True, s\<lparr>heap := (heap s)(p \<mapsto> updated_obj nm pr qty ob)\<rparr>)"
proof -
  let ?f1 = "if nm \<noteq> [] then obj_setName nm else (\<lambda>ob. ob)"
  let ?f2 = "if pr \<ge> 0 then \<lambda>ob. snd (obj_setPrice pr ob) else (\<lambda>ob. ob)"
  let ?f3 = "if qty \<ge> 0 then \<lambda>ob. snd (obj_setQuantity qty ob) else (\<lambda>ob. ob)"
  have m: "(if c then modify p f t else t) = modify p (if c then f else (\<lambda>ob. ob)) t"
    if "heap t p \<noteq> None" for c f t
    using that by (auto simp: modify_id)
  have l: "heap (modify p f t) p \<noteq> None" for f t by (simp add: modify_def)
  have 1: "(if nm \<noteq> [] then modify p (obj_setName nm) s else s) = modify p ?f1 s"
    by (rule m) (simp add: assms(2))
  have 2: "(if pr \<ge> 0 then modify p (\<lambda>ob. snd (obj_setPrice pr ob)) (modify p ?f1 s)
            else modify p ?f1 s) = modify p ?f2 (modify p ?f1 s)"
    by (rule m) (rule l)
  have 3: "(if qty \<ge> 0 then modify p (\<lambda>ob. snd (obj_setQuantity qty ob)) (modify p ?f2 (modify p ?f1 s))
            else modify p ?f2 (modify p ?f1 s)) = modify p ?f3 (modify p ?f2 (modify p ?f1 s))"
    by (rule m) (rule l)
  have "updateProduct k nm pr qty s = (True, modify p ?f3 (modify p ?f2 (modify p ?f1 s)))"
    unfolding updateProduct_def getProduct_def Let_def assms(1) option.case 1 2 3 ..
  also have "modify p ?f3 (modify p ?f2 (modify p ?f1 s)) = modify p (\<lambda>ob. ?f3 (?f2 (?f1 ob))) s"
    by (simp only: modify_modify)
  also have "\<dots> = s\<lparr>heap := (heap s)(p \<mapsto> updated_obj nm pr qty ob)\<rparr>"
    unfolding update_steps using assms(2) by (simp add: modify_def deref_def)
  finally show ?thesis .
qed

section \<open>Sorting functions that meet the contract\<close>

lemma swo_asym: "strict_weak_ordering cmp \<Longrightarrow> cmp x y \<Longrightarrow> \<not> cmp y x"
  unfolding strict_weak_ordering_def by blast

lemma swo_trans: "strict_weak_ordering cmp \<Longrightarrow> cmp x y \<Longrightarrow> cmp y z \<Longrightarrow> cmp x z"
  unfolding strict_weak_ordering_def by blast

lemma swo_irrefl: "strict_weak_ordering cmp \<Longrightarrow> \<not> cmp x x"
  unfolding strict_weak_ordering_def by blast

lemma swo_incomp:
  "strict_weak_ordering cmp \<Longrightarrow> \<not> cmp x y \<Longrightarrow> \<not> cmp y x \<Longrightarrow> \<not> cmp y z \<Longrightarrow> \<not> cmp z y
    \<Longrightarrow> \<not> cmp x z"
  unfolding strict_weak_ordering_def by blast

lemma swo_neg_trans:
  assumes "strict_weak_ordering cmp" "\<not> cmp x y" "\<not> cmp y z"
  shows "\<not> cmp x z"
proof
  assume xz: "cmp x z"
  have 1: "\<not> cmp y x" using swo_trans[OF assms(1) _ xz] assms(3) by blast
  have 2: "\<not> cmp z y" using swo_trans[OF assms(1) xz] assms(2) by blast
  from swo_incomp[OF assms(1,2) 1 assms(3) 2] xz show False by simp
qed

lemma mset_insert_after: "mset (insert_after cmp x ys) = add_mset x (mset ys)"
  by (induction ys) auto


lemma set_insert_after: "set (insert_after cmp x ys) = insert x (set ys)"
  by (induction ys) auto


lemma sorted_insert_after:
  assumes "strict_weak_ordering cmp"
  shows "sorted_wrt (\<lambda>x y. \<not> cmp y x) ys \<Longrightarrow> sorted_wrt (\<lambda>x y. \<not> cmp y x) (insert_after cmp x ys)"
proof (induction ys)
  case Nil
  then show ?case by simp
next
  case (Cons y ys)
  show ?case
  proof (cases "cmp x y")
    case True
    have "\<not> cmp z x" if "z \<in> set (y # ys)" for z
    proof -
      have "\<not> cmp z y" using that Cons.prems swo_irrefl[OF assms, of y] by auto
      moreover have "\<not> cmp y x" using swo_asym[OF assms True] .
      ultimately show ?thesis by (rule swo_neg_trans[OF assms])
    qed
    with True Cons.prems show ?thesis by simp
  next
    case False
    with Cons show ?thesis by (auto simp: set_insert_after)
  qed
qed


lemma foldl_insert_after:
  "strict_weak_ordering cmp \<Longrightarrow> sorted_wrt (\<lambda>x y. \<not> cmp y x) acc \<Longrightarrow>
     mset (foldl (\<lambda>acc x. insert_after cmp x acc) acc xs) = mset acc + mset xs
     \<and> sorted_wrt (\<lambda>x y. \<not> cmp y x) (foldl (\<lambda>acc x. insert_after cmp x acc) acc xs)"
  by (induction xs arbitrary: acc) (simp_all add: mset_insert_after sorted_insert_after)


lemma insertion_sort_contract: "std_sort_contract insertion_sort"
  unfolding std_sort_contract_def insertion_sort_def
proof (intro allI impI)
  fix cmp :: "addr \<Rightarrow> addr \<Rightarrow> bool" and xs
  assume "strict_weak_ordering cmp"
  from foldl_insert_after[OF this, of "[]" xs]
  show "mset (foldl (\<lambda>acc x. insert_after cmp x acc) [] xs) = mset xs \<and>
        sorted_wrt (\<lambda>x y. \<not> cmp y x) (foldl (\<lambda>acc x. insert_after cmp x acc) [] xs)"
    by simp
qed




lemma sort_heap [simp]: "heap (rebuildIndex (s\<lparr>products := ps\<rparr>)) = heap s"
  by (simp add: rebuildIndex_def)

lemma sort_products [simp]: "products (rebuildIndex (s\<lparr>products := ps\<rparr>)) = ps"
  by (simp add: rebuildIndex_def)




section \<open>The example inventory\<close>

lemma ex_inventory_simps:
  "products ex_inventory = [0, 1, 2]"
  "heap ex_inventory = [0 \<mapsto> ex_A, 1 \<mapsto> ex_B, 2 \<mapsto> ex_C]"
  "skuIndex ex_inventory = [''A'' \<mapsto> 0, ''B'' \<mapsto> 1, ''C'' \<mapsto> 2]"
  "brk ex_inventory = 3"
  by (simp_all add: ex_inventory_def client_add_def new_obj_def addProduct_def Inventory_init_def
      deref_def ex_A_def ex_B_def ex_C_def PhysicalProduct_new_def DigitalProduct_new_def Product_new_def
      Let_def numeral_2_eq_2 numeral_3_eq_3)

lemma ex_values:
  "calculateValue ex_A = 50" "calculateValue ex_B = 200" "calculateValue ex_C = 50"
  "getSku ex_A = ''A''" "getSku ex_B = ''B''" "getSku ex_C = ''C''"
  by (simp_all add: ex_A_def ex_B_def ex_C_def PhysicalProduct_new_def DigitalProduct_new_def Product_new_def
    Product_calculateValue_def)

lemma ex_run: "run srt [Add ex_A, Add ex_B, Add ex_C] Inventory_init = Inr ex_inventory"
  by (simp add: ex_inventory_def)

lemma ex_skus: "skus ex_inventory = [''A'', ''B'', ''C'']"
  by (simp add: skus_def ex_inventory_simps deref_def ex_values)

section \<open>Digits, numbers and streams\<close>






































section \<open>Product: discounts, validation, defaults\<close>

text \<open>
  Claim C3.  For every product and every percentage \<open>pct\<close>, \<open>applyDiscount pct\<close> on a
  Physical product is \<open>price * (1 - pct/100)\<close> when \<open>0 \<le> pct \<le> 100\<close> and the unmodified
  price otherwise; on a Digital product it is \<open>price * (1 - min (pct + 5) 50 / 100)\<close> when
  \<open>0 \<le> pct \<le> 100\<close>, the range check being made on \<open>pct\<close> itself before the bonus, and the
  unmodified price otherwise.  (A \<open>double\<close> is a real number here.)
\<close>

theorem applyDiscount_formula:
  "applyDiscount pct (PhysicalObj p) =
     (if 0 \<le> pct \<and> pct \<le> 100 then price p * (1 - pct / 100) else price p)
   \<and> applyDiscount pct (DigitalObj d) =
     (if 0 \<le> pct \<and> pct \<le> 100 then price d * (1 - min (pct + 5) 50 / 100) else price d)"
  by (auto simp: Product_applyDiscount_def DigitalProduct_applyDiscount_def Let_def)

text \<open>The examples of the specification: price 100 at 10 percent and at 50 percent.\<close>

theorem applyDiscount_formula_witness:
  "applyDiscount 10 (PhysicalObj (PhysicalProduct_new ''P'' ''Pen'' 100 1 ''Office'' 0 ''Acme'')) = 90
   \<and> applyDiscount 10 (DigitalObj (DigitalProduct_new ''D'' ''Doc'' 100 1 ''Office'' ''http://d'' 0 ''Single'')) = 85
   \<and> applyDiscount 50 (DigitalObj (DigitalProduct_new ''D'' ''Doc'' 100 1 ''Office'' ''http://d'' 0 ''Single'')) = 50
   \<and> applyDiscount 101 (DigitalObj (DigitalProduct_new ''D'' ''Doc'' 100 1 ''Office'' ''http://d'' 0 ''Single'')) = 100
   \<and> applyDiscount (- 1) (PhysicalObj (PhysicalProduct_new ''P'' ''Pen'' 100 1 ''Office'' 0 ''Acme'')) = 100"
  using
    applyDiscount_formula [of 10 "PhysicalProduct_new ''P'' ''Pen'' 100 1 ''Office'' 0 ''Acme''"
      "DigitalProduct_new ''D'' ''Doc'' 100 1 ''Office'' ''http://d'' 0 ''Single''"]
    applyDiscount_formula [of 50 "PhysicalProduct_new ''P'' ''Pen'' 100 1 ''Office'' 0 ''Acme''"
      "DigitalProduct_new ''D'' ''Doc'' 100 1 ''Office'' ''http://d'' 0 ''Single''"]
    applyDiscount_formula [of 101 "PhysicalProduct_new ''P'' ''Pen'' 100 1 ''Office'' 0 ''Acme''"
      "DigitalProduct_new ''D'' ''Doc'' 100 1 ''Office'' ''http://d'' 0 ''Single''"]
    applyDiscount_formula [of "- 1" "PhysicalProduct_new ''P'' ''Pen'' 100 1 ''Office'' 0 ''Acme''"
      "DigitalProduct_new ''D'' ''Doc'' 100 1 ''Office'' ''http://d'' 0 ''Single''"]
  by (simp add: PhysicalProduct_new_def DigitalProduct_new_def Product_new_def)

text \<open>
  Claim C8.  A negative price or quantity given to a constructor is stored as 0; and
  \<open>setPrice\<close>, \<open>setQuantity\<close>, \<open>setWeight\<close> and \<open>setFileSizeMB\<close> return failure on a
  negative argument and leave the object as it was, while a non-negative argument is
  stored and reported as success.
\<close>

theorem negative_inputs:
  "(pr < 0 \<longrightarrow> price (PhysicalProduct_new sk nm pr qty cat w sp) = 0
            \<and> price (DigitalProduct_new sk nm pr qty cat link sz lic) = 0)
   \<and> (qty < 0 \<longrightarrow> quantity (PhysicalProduct_new sk nm pr qty cat w sp) = 0
            \<and> quantity (DigitalProduct_new sk nm pr qty cat link sz lic) = 0)
   \<and> (x < 0 \<longrightarrow> setPrice x p = (False, p) \<and> setWeight x pp = (False, pp)
            \<and> setFileSizeMB x dp = (False, dp))
   \<and> (n < 0 \<longrightarrow> setQuantity n p = (False, p))
   \<and> (0 \<le> x \<longrightarrow> setPrice x p = (True, p\<lparr>price := x\<rparr>)
            \<and> setWeight x pp = (True, pp\<lparr>weight := x\<rparr>)
            \<and> setFileSizeMB x dp = (True, dp\<lparr>fileSizeMB := x\<rparr>))
   \<and> (0 \<le> n \<longrightarrow> setQuantity n p = (True, p\<lparr>quantity := n\<rparr>))"
  by (simp add: PhysicalProduct_new_def DigitalProduct_new_def Product_new_def
      setPrice_def setQuantity_def setWeight_def setFileSizeMB_def)

theorem negative_inputs_witness:
  "price (PhysicalProduct_new ''A1'' ''Widget'' (- 5) (- 3) ''Tools'' 2 ''Acme'') = 0
   \<and> quantity (DigitalProduct_new ''D1'' ''Book'' (- 5) (- 3) ''Media'' ''http://x'' 2 ''Single'') = 0
   \<and> setPrice (- 1) PhysicalProduct_default = (False, PhysicalProduct_default)
   \<and> setQuantity (- 1) PhysicalProduct_default = (False, PhysicalProduct_default)"
  using negative_inputs [of "- 5" "''A1''" "''Widget''" "- 3" "''Tools''" 2 "''Acme''"
      "''http://x''" 2 "''Single''" "- 1" PhysicalProduct_default PhysicalProduct_default
      DigitalProduct_default "- 1"]
    negative_inputs [of "- 5" "''D1''" "''Book''" "- 3" "''Media''" 2 "''Acme''"
      "''http://x''" 2 "''Single''" "- 1" PhysicalProduct_default PhysicalProduct_default
      DigitalProduct_default "- 1"]
  by simp

text \<open>
  Claim C9, as amended.  The constructor \<open>Product()\<close> of the abstract base class sets the
  category \<open>General\<close>, but every object that can be built belongs to a derived class, and
  the default constructors of those overwrite it: a default Physical product has the
  category \<open>Physical\<close> and a default Digital product has the category \<open>Digital\<close>.
\<close>

theorem default_category:
  "category (Product_default m) = ''General''
   \<and> category PhysicalProduct_default = ''Physical''
   \<and> category DigitalProduct_default = ''Digital''"
  by (simp add: Product_default_def PhysicalProduct_default_def DigitalProduct_default_def
      setCategory_def)

text \<open>The claim as stated fails for both variants.\<close>

theorem default_category_counterexample:
  "category PhysicalProduct_default \<noteq> ''General''
   \<and> category DigitalProduct_default \<noteq> ''General''"
  by (simp add: Product_default_def PhysicalProduct_default_def DigitalProduct_default_def
      setCategory_def)

section \<open>The inventory: adding, updating, sorting, loading\<close>

text \<open>
  Claim C1.  In every sequence of \<open>addProduct\<close> calls that starts from an empty
  inventory (whatever the pointers, null or live, and the objects they point to), no two
  records of the sequence share a sku.  In the state such a sequence reaches, adding a
  null pointer or a record whose sku is already in the store returns failure and changes
  nothing; any other record is appended and the call succeeds.
\<close>

theorem addProduct_unique:
  assumes "products s0 = []" "skuIndex s0 = Map.empty"
    and "\<forall>q \<in> set ps. set_option q \<subseteq> dom (heap s0)" "p \<in> dom (heap s0)"
  shows "distinct (skus (add_all ps s0))
    \<and> addProduct None (add_all ps s0) = (False, add_all ps s0)
    \<and> (getSku (deref (add_all ps s0) p) \<in> set (skus (add_all ps s0)) \<longrightarrow>
         addProduct (Some p) (add_all ps s0) = (False, add_all ps s0))
    \<and> (getSku (deref (add_all ps s0) p) \<notin> set (skus (add_all ps s0)) \<longrightarrow>
         fst (addProduct (Some p) (add_all ps s0))
         \<and> products (snd (addProduct (Some p) (add_all ps s0))) = products (add_all ps s0) @ [p])"
proof -
  let ?s = "add_all ps s0"
  have k: "distinct (skus ?s)" "index_exact ?s"
    using add_all_keeps[of s0 ps] empty_ok[OF assms(1,2)] by simp_all
  have a: "getSku (deref ?s p) \<in> set (skus ?s) \<longleftrightarrow> skuIndex ?s (getSku (deref ?s p)) \<noteq> None"
    by (rule in_skus_iff[OF k(2)])
  show ?thesis using k(1) a by (auto simp: addProduct_def)
qed

theorem addProduct_unique_witness:
  "skus (add_all [Some 0, None, Some 1, Some 2]
           \<lparr>heap = [0 \<mapsto> ex_A, 1 \<mapsto> ex_B, 2 \<mapsto> ex_A], brk = 3, products = [], skuIndex = Map.empty\<rparr>)
     = [''A'', ''B'']
   \<and> distinct (skus (add_all [Some 0, None, Some 1, Some 2]
           \<lparr>heap = [0 \<mapsto> ex_A, 1 \<mapsto> ex_B, 2 \<mapsto> ex_A], brk = 3, products = [], skuIndex = Map.empty\<rparr>))
   \<and> addProduct (Some 2) (add_all [Some 0, None, Some 1, Some 2]
           \<lparr>heap = [0 \<mapsto> ex_A, 1 \<mapsto> ex_B, 2 \<mapsto> ex_A], brk = 3, products = [], skuIndex = Map.empty\<rparr>)
     = (False, add_all [Some 0, None, Some 1, Some 2]
           \<lparr>heap = [0 \<mapsto> ex_A, 1 \<mapsto> ex_B, 2 \<mapsto> ex_A], brk = 3, products = [], skuIndex = Map.empty\<rparr>)"
proof -
  let ?s0 = "\<lparr>heap = [0 \<mapsto> ex_A, 1 \<mapsto> ex_B, 2 \<mapsto> ex_A], brk = 3, products = [],
      skuIndex = Map.empty\<rparr>"
  let ?ps = "[Some 0, None, Some 1, Some 2]"
  have h: "products ?s0 = []" "skuIndex ?s0 = Map.empty"
    "\<forall>q \<in> set ?ps. set_option q \<subseteq> dom (heap ?s0)" "2 \<in> dom (heap ?s0)"
    by simp_all
  have k: "skus (add_all ?ps ?s0) = [''A'', ''B'']"
    by (simp add: add_all_def addProduct_def deref_def ex_values skus_def)
  have d: "getSku (deref (add_all ?ps ?s0) 2) = ''A''"
    by (simp add: add_all_def addProduct_def deref_def ex_values)
  from addProduct_unique [OF h] k d show ?thesis by simp
qed

text \<open>
  Claim C6.  In every state the operations reach (with any \<open>std::sort\<close> that meets
  its contract), \<open>updateProduct\<close> fails and changes nothing when the sku is not in the
  store; when it is, the call succeeds and changes only the record found: an empty name,
  a negative price and a negative quantity each leave the current value, any other
  value replaces it.
\<close>

theorem updateProduct_partial:
  assumes "std_sort_contract srt" "run srt ops Inventory_init = Inr s"
  shows "(k \<notin> set (skus s) \<longrightarrow> updateProduct k nm pr qty s = (False, s))
   \<and> (k \<in> set (skus s) \<longrightarrow>
        (\<exists>p ob. p \<in> set (products s) \<and> getProduct k s = Some p \<and> heap s p = Some ob
           \<and> getSku ob = k
           \<and> updateProduct k nm pr qty s =
               (True, s\<lparr>heap := (heap s)(p \<mapsto> updated_obj nm pr qty ob)\<rparr>)))"
proof -
  have w: "wf s" by (rule wf_run[OF assms(1) wf_init assms(2)])
  then have ix: "index_exact s" by (simp add: wf_def)
  show ?thesis
  proof (intro conjI impI)
    assume "k \<notin> set (skus s)"
    then have "skuIndex s k = None" using in_skus_iff[OF ix, of k] by simp
    then show "updateProduct k nm pr qty s = (False, s)"
      by (simp add: updateProduct_def getProduct_def)
  next
    assume "k \<in> set (skus s)"
    then obtain p where p: "skuIndex s k = Some p" using in_skus_iff[OF ix, of k] by auto
    with ix have pp: "p \<in> set (products s)" "getSku (deref s p) = k"
      by (simp_all add: index_exact_def)
    with w obtain ob where ob: "heap s p = Some ob" by (auto simp: wf_def)
    with pp have "getSku ob = k" by (simp add: deref_def)
    with p pp ob updateProduct_found[OF p ob, of nm pr qty]
    show "\<exists>p ob. p \<in> set (products s) \<and> getProduct k s = Some p \<and> heap s p = Some ob
           \<and> getSku ob = k
           \<and> updateProduct k nm pr qty s =
               (True, s\<lparr>heap := (heap s)(p \<mapsto> updated_obj nm pr qty ob)\<rparr>)"
      by (auto simp: getProduct_def)
  qed
qed

theorem updateProduct_partial_witness:
  "updateProduct ''Z'' ''Zebra'' 1 1 ex_inventory = (False, ex_inventory)
   \<and> updateProduct ''B'' '''' 120 (- 1) ex_inventory =
       (True, ex_inventory\<lparr>heap := (heap ex_inventory)(1 \<mapsto>
          DigitalObj (DigitalProduct_new ''B'' ''Book'' 120 2 ''Media'' ''http://b'' 3 ''Single''))\<rparr>)"
  using updateProduct_partial[OF insertion_sort_contract ex_run, of "''Z''" "''Zebra''" 1 1]
    updateProduct_partial[OF insertion_sort_contract ex_run, of "''B''" "''''" 120 "- 1"]
  by (auto simp: ex_skus getProduct_def ex_inventory_simps ex_B_def updated_fields_def
      DigitalProduct_new_def Product_new_def digital_product.defs)

text \<open>
  Claim C7.  After each of the five sorting operations, in every state the operations
  reach, the index agrees with the reordered sequence: looking up the sku of any record
  of the sequence gives that record, and the index holds exactly the skus of the
  sequence.
\<close>

theorem sort_index_consistent:
  assumes "std_sort_contract srt" "run srt ops Inventory_init = Inr s"
  shows "index_consistent (sortBySku srt s) \<and> index_consistent (sortByName srt s)
     \<and> index_consistent (sortByPrice srt s) \<and> index_consistent (sortByQuantity srt s)
     \<and> index_consistent (sortByValue srt s)"
  using wf_sorts[OF assms(1) wf_run[OF assms(1) wf_init assms(2)]]
  by (simp add: wf_index_consistent)

theorem sort_index_consistent_witness:
  "index_consistent (sortByValue insertion_sort ex_inventory)
   \<and> products (sortByValue insertion_sort ex_inventory) = [1, 0, 2]
   \<and> getProduct ''A'' (sortByValue insertion_sort ex_inventory) = Some 0"
  using sort_index_consistent[OF insertion_sort_contract ex_run]
  by (simp add: sortByValue_def insertion_sort_def ex_inventory_simps deref_def ex_values
      getProduct_def rebuildIndex_def)




text \<open>
  Claim C10.  When the file cannot be opened \<open>loadFromFile\<close> returns failure and
  the state is unchanged; the inventory is cleared only once the file is open, and the
  lines are then loaded into the cleared inventory.
\<close>

theorem loadFromFile_unopened:
  "loadFromFile None s = Inr (False, s)
   \<and> loadFromFile (Some content) s = map_sum id (Pair True) (load_lines content (clearAll s))"
  by (simp add: loadFromFile_def split: sum.splits)

section \<open>The CSV codec\<close>

lemma load_lines_skipped: "skipped line \<Longrightarrow> load_lines (line # rest) s = load_lines rest s"
  by (auto simp: skipped_def decode_line_def Let_def)

lemma load_lines_kept:
  "\<not> skipped line \<Longrightarrow> load_lines (line # rest) s =
     (case decode_line line of
        Inl e \<Rightarrow> Inl e
      | Inr r \<Rightarrow> (case r of None \<Rightarrow> load_lines rest s | Some ob \<Rightarrow>
          load_lines rest (snd (addProduct (Some (fst (new_obj ob s))) (snd (new_obj ob s))))))"
  by (auto simp: skipped_def split_def Let_def split: sum.splits option.splits)

lemma load_lines_filter:
  "load_lines ls s = load_lines (filter (\<lambda>l. \<not> skipped l) ls) s"
proof (induction ls arbitrary: s)
  case Nil
  show ?case by simp
next
  case (Cons l ls)
  show ?case
  proof (cases "skipped l")
    case True
    then show ?thesis using Cons[of s] by (simp add: load_lines_skipped del: load_lines.simps)
  next
    case False
    then show ?thesis using Cons
      by (simp add: load_lines_kept del: load_lines.simps split: sum.splits option.splits)
  qed
qed

text \<open>
  Claim C2, as amended.  An empty line, a comment line and a line whose leading type tag
  is neither \<open>Physical\<close> nor \<open>Digital\<close> add no record, and loading continues with the
  next line: wherever such lines stand in the file, the load ends as it does without
  them.  A line with one of the two tags is never answered by a null pointer:
  \<open>fromCSV\<close> validates nothing, and the object it returns is offered to
  \<open>addProduct\<close>.
\<close>

theorem unrecognised_line_skipped:
  "load_lines ls s = load_lines (filter (\<lambda>l. \<not> skipped l) ls) s
   \<and> (skipped line \<longrightarrow> load_lines (line # rest) s = load_lines rest s)
   \<and> (\<not> skipped line \<longrightarrow> decode_line line \<noteq> Inr None)
   \<and> (\<not> skipped line \<and> decode_line line = Inr (Some ob)
     \<longrightarrow> load_lines (line # rest) s =
          load_lines rest (snd (addProduct (Some (fst (new_obj ob s))) (snd (new_obj ob s)))))"
proof (intro conjI impI)
  show "load_lines ls s = load_lines (filter (\<lambda>l. \<not> skipped l) ls) s"
    by (rule load_lines_filter)
  show "load_lines (line # rest) s = load_lines rest s" if "skipped line"
    using that by (rule load_lines_skipped)
  show "decode_line line \<noteq> Inr None" if "\<not> skipped line"
    using that by (auto simp: skipped_def decode_line_def Let_def split: sum.splits)
  show "load_lines (line # rest) s =
          load_lines rest (snd (addProduct (Some (fst (new_obj ob s))) (snd (new_obj ob s))))"
    if "\<not> skipped line \<and> decode_line line = Inr (Some ob)"
    using that by (simp add: load_lines_kept del: load_lines.simps)
qed

theorem unrecognised_line_skipped_witness:
  "skipped ''# header'' \<and> skipped '''' \<and> skipped ''Gadget,A1,Widget,9.99,5,Tools,1.5,Acme''
   \<and> \<not> skipped ''Physical,A,Anvil,10,5,Tools,20,Acme''
   \<and> load_lines [''# header'', ''Physical,A,Anvil,10,5,Tools,20,Acme'', '''',
                  ''Gadget,A1,Widget,9.99,5,Tools,1.5,Acme''] Inventory_init
       = Inr (client_add ex_A Inventory_init)"
proof -
  have k: "skipped ''# header''" "skipped ''''" "skipped ''Gadget,A1,Widget,9.99,5,Tools,1.5,Acme''"
    "\<not> skipped ''Physical,A,Anvil,10,5,Tools,20,Acme''"
    by (simp_all add: skipped_def)
  have d: "decode_line ''Physical,A,Anvil,10,5,Tools,20,Acme'' = Inr (Some ex_A)"
    by code_simp
  have a: "fst (addProduct (Some (fst (new_obj ex_A Inventory_init)))
                  (snd (new_obj ex_A Inventory_init)))"
    by (simp add: addProduct_def new_obj_def Inventory_init_def)
  show ?thesis
    using unrecognised_line_skipped [of "[''# header'', ''Physical,A,Anvil,10,5,Tools,20,Acme'', '''',
          ''Gadget,A1,Widget,9.99,5,Tools,1.5,Acme'']" Inventory_init
          "''Physical,A,Anvil,10,5,Tools,20,Acme''" "[]" ex_A]
       k d a
    by (simp add: client_add_def split_def Let_def del: load_lines.simps(2))
qed

text \<open>
  The claim as stated fails: a line with a field missing and a line with a weight that
  is not a number both add a record.
\<close>

theorem malformed_line_counterexample:
  "map_sum id skus (load_lines [''Physical,A1,Widget,9.99,5,Tools,1.5'',
                                ''Physical,B2,Gadget,9.99,5,Tools,heavy,Acme''] Inventory_init)
     = Inr [''A1'', ''B2'']"
  by code_simp




end
